theory Spec2Isabelle
  imports Main "HOL-Library.Word"
begin

unbundle bit_operations_syntax

section \<open>Signals and clocked logic\<close>

text \<open>
  The circuits of \<^verbatim>\<open>fsm.py\<close> are built from single-bit wires and multi-bit buses of
  the signal library the file imports. A wire is a \<^typ>\<open>bool\<close>. A bus of run-time width
  \<open>w\<close> is a \<^typ>\<open>nat\<close> that is reduced modulo \<open>2 ^ w\<close> when a value is staged on it
  (the buses are modular bit vectors); a bus of a fixed width is a word.

  A block decorated with \<^verbatim>\<open>seq_logic(clk_i.posedge)\<close> runs on each rising clock edge: it
  reads the current values of its signals and stages new ones through \<^verbatim>\<open>.next\<close>, and all
  staged values are committed together after every block of that edge has run. A signal
  that is not assigned in the branch taken keeps its value. So a clocked block is a
  function from the current values to the values after the edge. A \<^verbatim>\<open>comb_logic\<close> block
  is a function of the current values.

  Two operations of the library raise an exception, and are modelled with an error value:
  the construction of a bus of width 0 raises \<^verbatim>\<open>ValueError\<close>, and the comparison of an
  enumeration item with a value that is not an item of the enumeration raises
  \<^verbatim>\<open>TypeError\<close>.
\<close>

datatype error = ValueError | TypeError

text \<open>\<^verbatim>\<open>Bus(width)\<close>: the initial value 0 of the new bus, or the error for width 0.\<close>

definition Bus :: "nat \<Rightarrow> error + nat" where
  "Bus width = (if width = 0 then Inl ValueError else Inr 0)"

definition bus_assign :: "nat \<Rightarrow> nat \<Rightarrow> nat" where
  "bus_assign w v = v mod 2 ^ w"

section \<open>Counter with enable and reset\<close>

text \<open>
  \<^verbatim>\<open>counter_en_rst.next_state_logic\<close>. The chunk has the ports \<^verbatim>\<open>en_i\<close> and \<^verbatim>\<open>rst_i\<close>,
  but the block does not read them: it tests the module-level wires \<^verbatim>\<open>rst\<close> and
  \<^verbatim>\<open>en\<close>. The arguments \<open>en_i\<close> and \<open>rst_i\<close> are the values of the ports at the edge,
  \<open>rst\<close> and \<open>en\<close> the values of the module-level wires, \<open>w\<close> is \<^verbatim>\<open>len(cnt_o)\<close>, and the
  result is the value of \<^verbatim>\<open>cnt\<close> after the edge.
\<close>

definition counter_en_rst_next_state_logic ::
    "nat \<Rightarrow> bool \<Rightarrow> bool \<Rightarrow> bool \<Rightarrow> bool \<Rightarrow> nat \<Rightarrow> nat" where
  "counter_en_rst_next_state_logic w en_i rst_i rst en cnt =
     (if rst = True then bus_assign w 0
      else if en = True then bus_assign w (cnt + 1)
      else cnt)"

text \<open>\<^verbatim>\<open>counter_en_rst.output_logic\<close>: the output bus follows the register.\<close>

definition counter_en_rst_output_logic :: "nat \<Rightarrow> nat" where
  "counter_en_rst_output_logic cnt = cnt"

section \<open>Debouncer\<close>

text \<open>
  The counter of the debouncer is a bus of \<^verbatim>\<open>int(ceil(log2(debounce_time + 1)))\<close> bits.
  The source evaluates this expression in double precision, so its value is not computed
  here: the functions below take it as the argument \<open>cnt_width\<close>. It is 0 for the window
  0 (the logarithm of 1 is 0), 2 for the window 3 and 17 for the window 120000, the two
  windows the source uses.

  \<open>clog2 n\<close> is the exact value of \<open>ceil(log2 n)\<close> for \<open>n \<ge> 1\<close>, the least \<open>k\<close> with
  \<open>n \<le> 2 ^ k\<close>. The double-precision value can be smaller for a very large window, when
  the logarithm rounds down to an integer: for the window \<open>2 ^ 49\<close> the source's counter
  has 49 bits, one too few to hold the window. What is proved below about a counter that
  holds the window is therefore stated under the hypothesis
  \<open>debounce_time < 2 ^ cnt_width\<close>.
\<close>

fun clog2 :: "nat \<Rightarrow> nat" where
  "clog2 n = (if n \<le> 1 then 0 else Suc (clog2 ((n + 1) div 2)))"

declare clog2.simps [simp del]

text \<open>
  The registers of one debouncer: the counter \<^verbatim>\<open>debounce_cnt\<close>, the wire
  \<^verbatim>\<open>prev_button\<close>, and the output wire \<^verbatim>\<open>button_o\<close>, which is driven by a clocked block
  and so is a register too. All start at 0.
\<close>

record debouncer =
  debounce_cnt :: nat
  prev_button :: bool
  button_o :: bool

definition debouncer_init :: debouncer where
  "debouncer_init = \<lparr>debounce_cnt = 0, prev_button = False, button_o = False\<rparr>"

text \<open>
  The construction of a debouncer whose counter has \<open>cnt_width\<close> bits: the first statement
  of the chunk builds the counter bus, and fails when that fails.
\<close>

definition debouncer_new :: "nat \<Rightarrow> error + debouncer" where
  "debouncer_new cnt_width =
     (case Bus cnt_width of
        Inl e \<Rightarrow> Inl e
      | Inr c \<Rightarrow> Inr \<lparr>debounce_cnt = c, prev_button = False, button_o = False\<rparr>)"

text \<open>
  \<^verbatim>\<open>debouncer.next_state_logic\<close>: the values of \<^verbatim>\<open>debounce_cnt\<close> and \<^verbatim>\<open>prev_button\<close>
  after the edge. The decrement is guarded by \<^verbatim>\<open>debounce_cnt != 0\<close>, so the subtraction
  on \<^typ>\<open>nat\<close> is the subtraction of the source.
\<close>

definition debouncer_next_state_logic ::
    "nat \<Rightarrow> nat \<Rightarrow> bool \<Rightarrow> debouncer \<Rightarrow> nat \<times> bool" where
  "debouncer_next_state_logic cnt_width debounce_time button_i s =
     ((if button_i = prev_button s then
         (if debounce_cnt s \<noteq> 0 then bus_assign cnt_width (debounce_cnt s - 1)
          else debounce_cnt s)
       else bus_assign cnt_width debounce_time),
      button_i)"

text \<open>\<^verbatim>\<open>debouncer.output_logic\<close>, a clocked block: the value of \<^verbatim>\<open>button_o\<close> after the edge.\<close>

definition debouncer_output_logic :: "debouncer \<Rightarrow> bool" where
  "debouncer_output_logic s = (if debounce_cnt s = 0 then prev_button s else button_o s)"

text \<open>One rising clock edge of a debouncer whose raw input is \<open>button_i\<close> at that edge.\<close>

definition debouncer_step :: "nat \<Rightarrow> nat \<Rightarrow> bool \<Rightarrow> debouncer \<Rightarrow> debouncer" where
  "debouncer_step cnt_width debounce_time button_i s =
     \<lparr>debounce_cnt = fst (debouncer_next_state_logic cnt_width debounce_time button_i s),
      prev_button = snd (debouncer_next_state_logic cnt_width debounce_time button_i s),
      button_o = debouncer_output_logic s\<rparr>"

text \<open>
  A test bench sets the raw input and then raises the clock, once per element of the
  trace. \<open>debouncer_run\<close> is the state after the whole trace, \<open>debouncer_trace\<close> the list
  of the states after each edge.
\<close>

definition debouncer_run :: "nat \<Rightarrow> nat \<Rightarrow> bool list \<Rightarrow> debouncer \<Rightarrow> debouncer" where
  "debouncer_run cnt_width debounce_time xs s =
     fold (debouncer_step cnt_width debounce_time) xs s"

fun debouncer_trace :: "nat \<Rightarrow> nat \<Rightarrow> bool list \<Rightarrow> debouncer \<Rightarrow> debouncer list" where
  "debouncer_trace cnt_width debounce_time [] s = []"
| "debouncer_trace cnt_width debounce_time (x # xs) s =
     debouncer_step cnt_width debounce_time x s
       # debouncer_trace cnt_width debounce_time xs (debouncer_step cnt_width debounce_time x s)"

section \<open>Classic FSM\<close>

text \<open>
  The state signal is typed by the enumeration of the four declared items: the library
  refuses to stage any other value on it, so the state register of the circuit holds a
  \<open>state\<close>.
\<close>

datatype state = A | B | C | D

text \<open>
  The registers written by \<^verbatim>\<open>classic_fsm.next_state_logic\<close>. \<^verbatim>\<open>reset_cnt\<close> is a 2-bit
  bus; its attribute \<^verbatim>\<open>max\<close> is the exclusive upper bound \<open>2 ^ 2\<close> of its values.
\<close>

record fsm_regs =
  fsm_state :: state
  reset_cnt :: "2 word"
  prev_inputs :: "2 word"

definition reset_cnt_max :: nat where
  "reset_cnt_max = 2 ^ 2"

definition fsm_regs_init :: fsm_regs where
  "fsm_regs_init = \<lparr>fsm_state = A, reset_cnt = 0, prev_inputs = 0\<rparr>"

text \<open>\<^verbatim>\<open>classic_fsm.detect_chg\<close>, combinational: the rising edges of the debounced inputs.\<close>

definition detect_chg :: "2 word \<Rightarrow> 2 word \<Rightarrow> 2 word" where
  "detect_chg dbnc_inputs prev = dbnc_inputs AND NOT prev"

text \<open>
  \<^verbatim>\<open>classic_fsm.next_state_logic\<close>. It reads the signals \<^verbatim>\<open>input_chgs\<close> and
  \<^verbatim>\<open>dbnc_inputs\<close> and the registers, and stages the registers.
\<close>

definition next_state_logic :: "2 word \<Rightarrow> 2 word \<Rightarrow> fsm_regs \<Rightarrow> fsm_regs" where
  "next_state_logic input_chgs dbnc_inputs r =
     (if unat (reset_cnt r) < reset_cnt_max - 1 then
        r\<lparr>fsm_state := A, reset_cnt := reset_cnt r + 1\<rparr>
      else if fsm_state r = A then
        (if bit input_chgs 0 then r\<lparr>fsm_state := B\<rparr>
         else if bit input_chgs 1 then r\<lparr>fsm_state := D\<rparr>
         else r)
      else if fsm_state r = B then
        (if bit input_chgs 0 then r\<lparr>fsm_state := C\<rparr>
         else if bit input_chgs 1 then r\<lparr>fsm_state := A\<rparr>
         else r)
      else if fsm_state r = C then
        (if bit input_chgs 0 then r\<lparr>fsm_state := D\<rparr>
         else if bit input_chgs 1 then r\<lparr>fsm_state := B\<rparr>
         else r)
      else if fsm_state r = D then
        (if bit input_chgs 0 then r\<lparr>fsm_state := A\<rparr>
         else if bit input_chgs 1 then r\<lparr>fsm_state := C\<rparr>
         else r)
      else r\<lparr>fsm_state := A\<rparr>)
     \<lparr>prev_inputs := dbnc_inputs\<rparr>"

text \<open>\<^verbatim>\<open>classic_fsm.output_logic\<close>, combinational.\<close>

definition output_logic :: "state \<Rightarrow> 4 word" where
  "output_logic st =
     (if st = A then 0b0001
      else if st = B then 0b0010
      else if st = C then 0b0100
      else if st = D then 0b1000
      else 0b1111)"

text \<open>
  The registers driven by the debounced input vector: \<^verbatim>\<open>input_chgs\<close> is the output of
  \<^verbatim>\<open>detect_chg\<close> on that vector and the register \<^verbatim>\<open>prev_inputs\<close>.
\<close>

definition fsm_regs_step :: "2 word \<Rightarrow> fsm_regs \<Rightarrow> fsm_regs" where
  "fsm_regs_step dbnc_inputs r =
     next_state_logic (detect_chg dbnc_inputs (prev_inputs r)) dbnc_inputs r"

text \<open>
  The whole circuit: the registers of the state machine and the two debouncers, one for
  each bit of \<^verbatim>\<open>inputs_i\<close>, both with the window 120000, whose counter has
  \<^verbatim>\<open>int(ceil(log2(120001)))\<close> = 17 bits.
\<close>

record classic_fsm =
  regs :: fsm_regs
  dbnc0 :: debouncer
  dbnc1 :: debouncer

definition debounce_time_fsm :: nat where
  "debounce_time_fsm = 120000"

definition debounce_cnt_width_fsm :: nat where
  "debounce_cnt_width_fsm = 17"

definition classic_fsm_init :: classic_fsm where
  "classic_fsm_init = \<lparr>regs = fsm_regs_init, dbnc0 = debouncer_init, dbnc1 = debouncer_init\<rparr>"

text \<open>The bus \<^verbatim>\<open>dbnc_inputs\<close>: bit \<open>i\<close> is the output wire of debouncer \<open>i\<close>.\<close>

definition dbnc_inputs_of :: "classic_fsm \<Rightarrow> 2 word" where
  "dbnc_inputs_of s =
     (if button_o (dbnc0 s) then 1 else 0) OR (if button_o (dbnc1 s) then 2 else 0)"

text \<open>One rising clock edge with the raw input bus at \<open>inputs_i\<close>: every clocked block reads
  the values before the edge.\<close>

definition classic_fsm_step :: "2 word \<Rightarrow> classic_fsm \<Rightarrow> classic_fsm" where
  "classic_fsm_step inputs_i s =
     \<lparr>regs = fsm_regs_step (dbnc_inputs_of s) (regs s),
      dbnc0 = debouncer_step debounce_cnt_width_fsm debounce_time_fsm (bit inputs_i 0) (dbnc0 s),
      dbnc1 = debouncer_step debounce_cnt_width_fsm debounce_time_fsm (bit inputs_i 1) (dbnc1 s)\<rparr>"

definition classic_fsm_run :: "2 word list \<Rightarrow> classic_fsm \<Rightarrow> classic_fsm" where
  "classic_fsm_run xs s = fold classic_fsm_step xs s"

text \<open>The number of bits set in the output bus.\<close>

definition bits_set :: "4 word \<Rightarrow> nat" where
  "bits_set x = length (filter (bit x) [0, 1, 2, 3])"

section \<open>The state register holding a value outside the enumeration\<close>





section \<open>The width of the debounce counter\<close>

lemma clog2_bound: "n \<le> 2 ^ clog2 n"
proof (induction n rule: clog2.induct)
  case (1 n)
  show ?case
  proof (cases "n \<le> 1")
    case True
    then show ?thesis by (simp add: clog2.simps)
  next
    case False
    then have "(n + 1) div 2 \<le> 2 ^ clog2 ((n + 1) div 2)" using 1 by simp
    then have "n \<le> 2 * 2 ^ clog2 ((n + 1) div 2)" by arith
    with False show ?thesis by (subst clog2.simps) simp
  qed
qed

lemma clog2_least: "1 < n \<Longrightarrow> 2 ^ (clog2 n - 1) < n"
proof (induction n rule: clog2.induct)
  case (1 n)
  show ?case
  proof (cases "(n + 1) div 2 \<le> 1")
    case True
    with 1(2) have "n = 2" by arith
    then show ?thesis by (simp add: clog2.simps)
  next
    case False
    then have ih: "2 ^ (clog2 ((n + 1) div 2) - 1) < (n + 1) div 2" using 1 by simp
    from False have pos: "clog2 ((n + 1) div 2) > 0" by (subst clog2.simps) simp
    have "clog2 n = Suc (clog2 ((n + 1) div 2))" using 1(2) by (subst clog2.simps) simp
    then have "2 ^ (clog2 n - 1) = (2::nat) * 2 ^ (clog2 ((n + 1) div 2) - 1)"
      using pos by (cases "clog2 ((n + 1) div 2)") simp_all
    with ih show ?thesis by arith
  qed
qed

text \<open>
  A counter of the exact width holds the window, and has at least one bit for a window
  that is not 0: the hypotheses on the width below hold whenever the source computes the
  exact width.
\<close>

lemma clog2_holds_window: "W < 2 ^ clog2 (W + 1)"
proof -
  have "W + 1 \<le> 2 ^ clog2 (W + 1)" by (rule clog2_bound)
  then show ?thesis by simp
qed

lemma clog2_window_pos: "0 < W \<Longrightarrow> 0 < clog2 (W + 1)"
  by (subst clog2.simps) simp

lemma clog2_windows_of_source: "clog2 (0 + 1) = 0" "clog2 (3 + 1) = 2" "clog2 (120000 + 1) = 17"
  by (simp_all add: clog2.simps)

text \<open>A value below \<open>2 ^ w\<close> is staged on a bus of width \<open>w\<close> unchanged.\<close>

lemma bus_assign_below: "c < 2 ^ w \<Longrightarrow> bus_assign w c = c"
  by (simp add: bus_assign_def)

section \<open>Constructing and stepping the debouncer\<close>

lemma debouncer_new_eq:
  "debouncer_new w = (if w = 0 then Inl ValueError else Inr debouncer_init)"
  by (simp add: debouncer_new_def Bus_def debouncer_init_def)

lemma debouncer_new_Inr: "debouncer_new w = Inr s \<Longrightarrow> 0 < w \<and> s = debouncer_init"
  by (simp add: debouncer_new_eq split: if_splits)

lemma debouncer_step_prev: "prev_button (debouncer_step w W x s) = x"
  by (simp add: debouncer_step_def debouncer_next_state_logic_def)

lemma debouncer_step_out:
  "button_o (debouncer_step w W x s) = (if debounce_cnt s = 0 then prev_button s else button_o s)"
  by (simp add: debouncer_step_def debouncer_output_logic_def)

lemma debouncer_step_reload:
  "W < 2 ^ w \<Longrightarrow> x \<noteq> prev_button s \<Longrightarrow> debounce_cnt (debouncer_step w W x s) = W"
  by (simp add: debouncer_step_def debouncer_next_state_logic_def bus_assign_below)

lemma debouncer_step_cnt:
  "W < 2 ^ w \<Longrightarrow> debounce_cnt s \<le> W \<Longrightarrow>
   debounce_cnt (debouncer_step w W x s) = (if x = prev_button s then debounce_cnt s - 1 else W)"
  by (simp add: debouncer_step_def debouncer_next_state_logic_def bus_assign_below)

lemma debouncer_step_cnt_le:
  "W < 2 ^ w \<Longrightarrow> debounce_cnt s \<le> W \<Longrightarrow> debounce_cnt (debouncer_step w W x s) \<le> W"
  by (auto simp add: debouncer_step_cnt)

lemma debouncer_run_Nil: "debouncer_run w W [] s = s"
  by (simp add: debouncer_run_def)

lemma debouncer_run_Cons:
  "debouncer_run w W (x # xs) s = debouncer_run w W xs (debouncer_step w W x s)"
  by (simp add: debouncer_run_def)

lemma debouncer_run_append:
  "debouncer_run w W (xs @ ys) s = debouncer_run w W ys (debouncer_run w W xs s)"
  by (simp add: debouncer_run_def)

lemma debouncer_run_snoc:
  "debouncer_run w W (xs @ [x]) s = debouncer_step w W x (debouncer_run w W xs s)"
  by (simp add: debouncer_run_def)

lemma debouncer_trace_append:
  "debouncer_trace w W (xs @ ys) s =
     debouncer_trace w W xs s @ debouncer_trace w W ys (debouncer_run w W xs s)"
  by (induction xs arbitrary: s) (simp_all add: debouncer_run_Nil debouncer_run_Cons)

lemma debouncer_run_cnt_le:
  "W < 2 ^ w \<Longrightarrow> debounce_cnt s \<le> W \<Longrightarrow> debounce_cnt (debouncer_run w W xs s) \<le> W"
  by (induction xs arbitrary: s)
    (simp_all add: debouncer_run_Nil debouncer_run_Cons debouncer_step_cnt_le)

text \<open>While the input equals the stored value and the counter is not 0, only the counter moves.\<close>

lemma debouncer_hold:
  "W < 2 ^ w \<Longrightarrow> debounce_cnt s \<le> W \<Longrightarrow> prev_button s = v \<Longrightarrow> m \<le> debounce_cnt s \<Longrightarrow>
   (\<forall>t \<in> set (debouncer_trace w W (replicate m v) s). button_o t = button_o s)
   \<and> debounce_cnt (debouncer_run w W (replicate m v) s) = debounce_cnt s - m
   \<and> prev_button (debouncer_run w W (replicate m v) s) = v
   \<and> button_o (debouncer_run w W (replicate m v) s) = button_o s"
proof (induction m arbitrary: s)
  case 0
  then show ?case by (simp add: debouncer_run_Nil)
next
  case (Suc m)
  let ?s = "debouncer_step w W v s"
  from Suc.prems have c: "debounce_cnt ?s = debounce_cnt s - 1"
    by (simp add: debouncer_step_cnt)
  from Suc.prems have o: "button_o ?s = button_o s"
    by (simp add: debouncer_step_out)
  have p: "prev_button ?s = v" by (simp add: debouncer_step_prev)
  from c Suc.prems have "debounce_cnt ?s \<le> W" "m \<le> debounce_cnt ?s" by simp_all
  from Suc.IH [OF Suc.prems(1) this(1) p this(2)] c o show ?case
    by (simp add: debouncer_run_Cons)
qed

lemma debouncer_settled:
  "debounce_cnt s = 0 \<Longrightarrow> prev_button s = v \<Longrightarrow> button_o s = v \<Longrightarrow>
   debouncer_run w W (replicate n v) s = s"
proof (induction n)
  case 0
  then show ?case by (simp add: debouncer_run_Nil)
next
  case (Suc n)
  then have "debouncer_step w W v s = s"
    by (simp add: debouncer_step_def debouncer_next_state_logic_def debouncer_output_logic_def)
  with Suc show ?case by (simp add: debouncer_run_Cons)
qed

lemma debouncer_init_cnt: "debounce_cnt debouncer_init \<le> W"
  by (simp add: debouncer_init_def)

text \<open>
  The output is held through a short blip when no output update is pending as the blip
  begins. Let the stored previous input be \<open>v\<close>, and let the counter be non-zero or the
  output equal to the stored previous input. If the raw input differs from \<open>v\<close> for \<open>k\<close>
  edges, \<open>0 < k < W\<close>, and is back at \<open>v\<close> for the next \<open>m \<le> W + 1\<close> edges, the output
  after every one of these edges is the output before the blip.
\<close>

lemma debouncer_blip_held:
  assumes fits: "W < 2 ^ w"
    and pend: "debounce_cnt s = 0 \<longrightarrow> button_o s = prev_button s"
    and prev: "prev_button s = v"
    and k: "0 < k" "k < W"
    and m: "m \<le> W + 1"
  shows "\<forall>t \<in> set (debouncer_trace w W (replicate k (\<not> v) @ replicate m v) s).
           button_o t = button_o s"
proof -
  obtain k' where k': "k = Suc k'" using k(1) by (cases k) simp_all
  define s1 where "s1 = debouncer_step w W (\<not> v) s"
  define s2 where "s2 = debouncer_run w W (replicate k' (\<not> v)) s1"
  have s1: "debounce_cnt s1 = W" "prev_button s1 = (\<not> v)" "button_o s1 = button_o s"
    using pend prev fits
    by (simp_all add: s1_def debouncer_step_reload debouncer_step_prev debouncer_step_out)
  have "k' \<le> debounce_cnt s1" using k k' s1 by simp
  from debouncer_hold [OF fits _ s1(2) this] s1
  have blip: "\<forall>t \<in> set (debouncer_trace w W (replicate k' (\<not> v)) s1). button_o t = button_o s"
    and s2: "debounce_cnt s2 = W - k'" "prev_button s2 = (\<not> v)" "button_o s2 = button_o s"
    by (simp_all add: s2_def)
  have run_k: "debouncer_run w W (replicate k (\<not> v)) s = s2"
    by (simp add: k' debouncer_run_Cons s1_def s2_def)
  have head: "\<forall>t \<in> set (debouncer_trace w W (replicate k (\<not> v)) s). button_o t = button_o s"
    using blip s1(3) by (simp add: k' s1_def)
  have tail: "\<forall>t \<in> set (debouncer_trace w W (replicate m v) s2). button_o t = button_o s"
  proof (cases m)
    case 0
    then show ?thesis by simp
  next
    case (Suc m')
    define s3 where "s3 = debouncer_step w W v s2"
    have c2: "debounce_cnt s2 \<noteq> 0" using s2(1) k k' by simp
    have s3: "debounce_cnt s3 = W" "prev_button s3 = v" "button_o s3 = button_o s"
      using s2 c2 fits
      by (simp_all add: s3_def debouncer_step_reload debouncer_step_prev debouncer_step_out)
    have "m' \<le> debounce_cnt s3" using m Suc s3 by simp
    from debouncer_hold [OF fits _ s3(2) this] s3
    have "\<forall>t \<in> set (debouncer_trace w W (replicate m' v) s3). button_o t = button_o s"
      by simp
    with s3(3) show ?thesis by (simp add: Suc s3_def)
  qed
  from head tail run_k show ?thesis by (auto simp add: debouncer_trace_append)
qed

section \<open>Helper facts about the state machine\<close>

lemma next_state_logic_lockout:
  "unat (reset_cnt r) < reset_cnt_max - 1 \<Longrightarrow>
   fsm_state (next_state_logic chgs d r) = A
   \<and> unat (reset_cnt (next_state_logic chgs d r)) = unat (reset_cnt r) + 1"
proof -
  assume a: "unat (reset_cnt r) < reset_cnt_max - 1"
  then have "unat (reset_cnt r) + unat (1 :: 2 word) < 2 ^ LENGTH(2)"
    by (simp add: reset_cnt_max_def)
  then have "unat (reset_cnt r + 1) = unat (reset_cnt r) + unat (1 :: 2 word)"
    by (simp only: unat_add_lem)
  with a show ?thesis by (simp add: next_state_logic_def)
qed

lemma next_state_logic_expired:
  "\<not> unat (reset_cnt r) < reset_cnt_max - 1 \<Longrightarrow>
   reset_cnt (next_state_logic chgs d r) = reset_cnt r"
  by (simp add: next_state_logic_def)

lemma classic_fsm_run_Nil: "classic_fsm_run [] s = s"
  by (simp add: classic_fsm_run_def)

lemma classic_fsm_run_Cons: "classic_fsm_run (x # xs) s = classic_fsm_run xs (classic_fsm_step x s)"
  by (simp add: classic_fsm_run_def)

lemma classic_fsm_run_snoc: "classic_fsm_run (xs @ [x]) s = classic_fsm_step x (classic_fsm_run xs s)"
  by (simp add: classic_fsm_run_def)

lemma regs_classic_fsm_step:
  "regs (classic_fsm_step x s) =
     next_state_logic (detect_chg (dbnc_inputs_of s) (prev_inputs (regs s))) (dbnc_inputs_of s) (regs s)"
  by (simp add: classic_fsm_step_def fsm_regs_step_def)

lemma lockout_run:
  "unat (reset_cnt (regs s)) + length xs \<le> reset_cnt_max - 1 \<Longrightarrow>
   xs \<noteq> [] \<or> fsm_state (regs s) = A \<Longrightarrow>
   fsm_state (regs (classic_fsm_run xs s)) = A
   \<and> unat (reset_cnt (regs (classic_fsm_run xs s))) = unat (reset_cnt (regs s)) + length xs"
proof (induction xs arbitrary: s)
  case Nil
  then show ?case by (simp add: classic_fsm_run_Nil)
next
  case (Cons x xs)
  from Cons.prems(1) have "unat (reset_cnt (regs s)) < reset_cnt_max - 1" by simp
  from next_state_logic_lockout [OF this]
  have st: "fsm_state (regs (classic_fsm_step x s)) = A"
    and rc: "unat (reset_cnt (regs (classic_fsm_step x s))) = unat (reset_cnt (regs s)) + 1"
    by (simp_all add: regs_classic_fsm_step)
  from Cons.prems(1) rc
  have "unat (reset_cnt (regs (classic_fsm_step x s))) + length xs \<le> reset_cnt_max - 1"
    by simp
  from Cons.IH [OF this] st rc show ?case by (simp add: classic_fsm_run_Cons)
qed

lemma expired_run:
  "reset_cnt (regs s) = 3 \<Longrightarrow> reset_cnt (regs (classic_fsm_run xs s)) = 3"
proof (induction xs arbitrary: s)
  case Nil
  then show ?case by (simp add: classic_fsm_run_Nil)
next
  case (Cons x xs)
  from Cons.prems have "\<not> unat (reset_cnt (regs s)) < reset_cnt_max - 1"
    by (simp add: reset_cnt_max_def)
  with Cons.prems have "reset_cnt (regs (classic_fsm_step x s)) = 3"
    by (simp add: regs_classic_fsm_step next_state_logic_expired)
  from Cons.IH [OF this] show ?case by (simp add: classic_fsm_run_Cons)
qed

lemma reset_cnt_mono: "reset_cnt r \<le> reset_cnt (next_state_logic chgs d r)"
proof (cases "unat (reset_cnt r) < reset_cnt_max - 1")
  case True
  from next_state_logic_lockout [OF this, of chgs d] show ?thesis
    by (simp add: word_le_nat_alt)
next
  case False
  then show ?thesis by (simp add: next_state_logic_expired)
qed

lemma output_logic_one_hot: "bits_set (output_logic st) = 1"
  by (cases st) (simp_all add: output_logic_def bits_set_def)

text \<open>The two debouncers of the state machine are constructed: their counters have 17 bits.\<close>

lemma classic_fsm_debouncers_constructed:
  "debouncer_new debounce_cnt_width_fsm = Inr debouncer_init
   \<and> debounce_time_fsm < 2 ^ debounce_cnt_width_fsm"
  by (simp add: debouncer_new_eq debounce_cnt_width_fsm_def debounce_time_fsm_def)



section \<open>Properties of the counter\<close>

text \<open>
  C2. The claim fails on the code: the block reads the module-level wires \<^verbatim>\<open>rst\<close> and
  \<^verbatim>\<open>en\<close>, never its ports \<^verbatim>\<open>rst_i\<close> and \<^verbatim>\<open>en_i\<close>. With the reset port asserted and
  the enable port deasserted, while the module-level \<^verbatim>\<open>rst\<close> is 0 and \<^verbatim>\<open>en\<close> is 1, a
  3-bit counter at 5 goes to 6 on the clock edge, where the claim has it go to 0.
\<close>

theorem counter_en_rst_ignores_ports:
  "counter_en_rst_next_state_logic 3 False True False True 5 = 6"
  by (simp add: counter_en_rst_next_state_logic_def bus_assign_def)

text \<open>
  Whatever the ports are, the priority of the claim holds of the module-level wires; so it
  holds of the ports at the one instantiation of the source, which passes these wires as
  the ports.
\<close>

lemma counter_en_rst_priority_of_wires:
  "counter_en_rst_next_state_logic w en_i rst_i True en cnt = 0
   \<and> counter_en_rst_next_state_logic w en_i rst_i False True cnt = (cnt + 1) mod 2 ^ w
   \<and> counter_en_rst_next_state_logic w en_i rst_i False False cnt = cnt"
  by (simp add: counter_en_rst_next_state_logic_def bus_assign_def)

section \<open>Properties of the debouncer\<close>

text \<open>
  In the statements below an input trace lists the value of the raw input at each rising
  clock edge, and the output "at" an edge is the value of \<^verbatim>\<open>button_o\<close> after that edge.
\<close>

text \<open>
  C3. The claim fails on the code, in the trace of the source's own test bench
  \<^verbatim>\<open>debounce_tb\<close>: the debouncer of window 3 (counter of 2 bits) is constructed, the input
  is 1 for four edges, then 0 for two edges (a blip shorter than the window), then 1 again.
  The output is 0 after the fourth edge and becomes 1 on the first edge of the blip, where
  the claim, and the comment of the test bench, have it unchanged during the blip: the
  output is loaded one edge after the counter is seen at 0.
\<close>

theorem debounce_tb_blip_changes_output:
  "debouncer_new 2 = Inr debouncer_init
   \<and> map button_o (debouncer_trace 2 3 [True, True, True, True, False, False, True] debouncer_init)
     = [False, False, False, False, True, True, True]"
  by code_simp

text \<open>
  C4. Let the window \<open>W\<close> be at least 1 and the counter hold it (\<open>W < 2 ^ w\<close>, as for the
  windows of the source). Let the stored previous input and the output both be the old
  value \<open>\<not> v\<close>, and let the raw input be \<open>v\<close> from edge 0 on. The output is still the old
  value after each of the edges \<open>0, \<dots>, W\<close>. If the input is \<open>v\<close> at the edges \<open>0, \<dots>, W\<close>
  (the change and \<open>W\<close> more cycles), the output after edge \<open>W + 1\<close> is \<open>v\<close>, whatever the
  input is at that edge. While the input stays at \<open>v\<close> the output stays at \<open>v\<close>. So the
  output takes the new value at edge \<open>W + 1\<close>: the window plus the one cycle of the output
  register.
\<close>

theorem debounce_propagation:
  assumes pos: "0 < W" and fits: "W < 2 ^ w"
    and prev: "prev_button s = (\<not> v)" and out: "button_o s = (\<not> v)"
  shows "(\<forall>k \<le> W. button_o (debouncer_run w W (replicate (Suc k) v) s) = (\<not> v))
       \<and> (\<forall>x. button_o (debouncer_run w W (replicate (Suc W) v @ [x]) s) = v)
       \<and> (\<forall>n. button_o (debouncer_run w W (replicate (W + 2 + n) v) s) = v)"
proof -
  define s1 where "s1 = debouncer_step w W v s"
  have s1: "debounce_cnt s1 = W" "prev_button s1 = v" "button_o s1 = (\<not> v)"
    using prev out fits
    by (simp_all add: s1_def debouncer_step_reload debouncer_step_prev debouncer_step_out)
  have run_Suc: "debouncer_run w W (replicate (Suc k) v) s = debouncer_run w W (replicate k v) s1"
    for k
    by (simp add: debouncer_run_Cons s1_def)
  have hold: "debounce_cnt (debouncer_run w W (replicate k v) s1) = W - k
      \<and> prev_button (debouncer_run w W (replicate k v) s1) = v
      \<and> button_o (debouncer_run w W (replicate k v) s1) = (\<not> v)" if "k \<le> W" for k
  proof -
    from that have "k \<le> debounce_cnt s1" using s1 by simp
    from debouncer_hold [OF fits _ s1(2) this] s1 show ?thesis by simp
  qed
  have a: "\<forall>k \<le> W. button_o (debouncer_run w W (replicate (Suc k) v) s) = (\<not> v)"
    using hold by (simp only: run_Suc) simp
  define s2 where "s2 = debouncer_run w W (replicate W v) s1"
  have s2: "debounce_cnt s2 = 0" "prev_button s2 = v"
    using hold [of W] by (simp_all add: s2_def)
  have b: "button_o (debouncer_run w W (replicate (Suc W) v @ [x]) s) = v" for x
    unfolding debouncer_run_snoc run_Suc s2_def [symmetric]
    using s2 by (simp add: debouncer_step_out)
  define s3 where "s3 = debouncer_step w W v s2"
  have s3: "debounce_cnt s3 = 0" "prev_button s3 = v" "button_o s3 = v"
    using s2 fits by (simp_all add: s3_def debouncer_step_cnt debouncer_step_prev debouncer_step_out)
  have c: "button_o (debouncer_run w W (replicate (W + 2 + n) v) s) = v" for n
  proof -
    have "W + 2 + n = Suc W + Suc n" by simp
    then have "replicate (W + 2 + n) v = replicate (Suc W) v @ replicate (Suc n) v"
      by (simp only: replicate_add)
    then have "debouncer_run w W (replicate (W + 2 + n) v) s
        = debouncer_run w W (replicate (Suc n) v) s2"
      unfolding s2_def by (simp only: debouncer_run_append run_Suc)
    then have "debouncer_run w W (replicate (W + 2 + n) v) s = debouncer_run w W (replicate n v) s3"
      unfolding s3_def by (simp add: debouncer_run_Cons)
    with debouncer_settled [OF s3, of w W n] s3(3) show ?thesis by (simp only:)
  qed
  from a b c show ?thesis by blast
qed

theorem debounce_propagation_witness:
  "(0::nat) < 3 \<and> (3::nat) < 2 ^ 2
   \<and> button_o (debouncer_run 2 3 (replicate (Suc 3) True) debouncer_init) = (\<not> True)
   \<and> button_o (debouncer_run 2 3 (replicate (Suc 3) True @ [False]) debouncer_init) = True
   \<and> button_o (debouncer_run 2 3 (replicate (3 + 2 + 6) True) debouncer_init) = True"
proof -
  have h: "(0::nat) < 3" "(3::nat) < 2 ^ 2"
    "prev_button debouncer_init = (\<not> True)" "button_o debouncer_init = (\<not> True)"
    by (simp_all add: debouncer_init_def)
  note t = debounce_propagation [OF h]
  have "button_o (debouncer_run 2 3 (replicate (Suc 3) True) debouncer_init) = (\<not> True)"
    using t [THEN conjunct1, rule_format, of 3] by simp
  moreover have "button_o (debouncer_run 2 3 (replicate (Suc 3) True @ [False]) debouncer_init) = True"
    using t [THEN conjunct2, THEN conjunct1, rule_format, of False] .
  moreover have "button_o (debouncer_run 2 3 (replicate (3 + 2 + 6) True) debouncer_init) = True"
    using t [THEN conjunct2, THEN conjunct2, rule_format, of 6] .
  ultimately show ?thesis using h(1,2) by blast
qed

text \<open>
  The concrete case of C4: the debouncer of window 3, as constructed, with the input at 1
  from step 0 through step 10.
\<close>

lemma debounce_propagation_example:
  "debouncer_new 2 = Inr debouncer_init
   \<and> map button_o (debouncer_trace 2 3 (replicate 11 True) debouncer_init)
     = [False, False, False, False, True, True, True, True, True, True, True]"
  by code_simp

text \<open>
  C6 (amended). Let the debouncer be constructed with a counter of \<open>w\<close> bits that holds
  the window \<open>W\<close> (\<open>W < 2 ^ w\<close>, as the exact \<open>ceil(log2(W + 1))\<close> bits do). In every state
  reachable from the constructed one the counter is at most \<open>W\<close> and fits its bits. On each clock edge the
  counter becomes \<open>W\<close> if the raw input differs from the stored previous input, and
  otherwise is decremented, staying at 0 once it is 0. On each clock edge the output is
  loaded with the stored previous input if the counter is 0 before the edge, and otherwise
  keeps its value: the output equals the stored value one edge after the counter is at 0.
\<close>

theorem debounce_state_invariant:
  assumes new: "debouncer_new w = Inr s0" and fits: "W < 2 ^ w"
  shows "debounce_cnt (debouncer_run w W xs s0) \<le> W
   \<and> debounce_cnt (debouncer_run w W xs s0) < 2 ^ w
   \<and> debounce_cnt (debouncer_step w W x (debouncer_run w W xs s0)) =
       (if x \<noteq> prev_button (debouncer_run w W xs s0) then W
        else debounce_cnt (debouncer_run w W xs s0) - 1)
   \<and> button_o (debouncer_step w W x (debouncer_run w W xs s0)) =
       (if debounce_cnt (debouncer_run w W xs s0) = 0
        then prev_button (debouncer_run w W xs s0)
        else button_o (debouncer_run w W xs s0))"
proof -
  from new have "s0 = debouncer_init" by (simp add: debouncer_new_Inr)
  then have "debounce_cnt s0 \<le> W" by (simp add: debouncer_init_cnt)
  then have le: "debounce_cnt (debouncer_run w W xs s0) \<le> W"
    by (rule debouncer_run_cnt_le [OF fits])
  from le fits have "debounce_cnt (debouncer_run w W xs s0) < 2 ^ w" by simp
  with le debouncer_step_cnt [OF fits le, of x] show ?thesis
    by (simp add: debouncer_step_out)
qed

theorem debounce_state_invariant_witness:
  "debouncer_new 2 = Inr debouncer_init \<and> (3::nat) < 2 ^ 2
   \<and> debounce_cnt (debouncer_run 2 3 [True, True, False] debouncer_init) \<le> 3
   \<and> debounce_cnt (debouncer_run 2 3 [True, True, False] debouncer_init) < 2 ^ 2
   \<and> debounce_cnt (debouncer_step 2 3 True (debouncer_run 2 3 [True, True, False] debouncer_init)) =
       (if True \<noteq> prev_button (debouncer_run 2 3 [True, True, False] debouncer_init) then 3
        else debounce_cnt (debouncer_run 2 3 [True, True, False] debouncer_init) - 1)
   \<and> button_o (debouncer_step 2 3 True (debouncer_run 2 3 [True, True, False] debouncer_init)) =
       (if debounce_cnt (debouncer_run 2 3 [True, True, False] debouncer_init) = 0
        then prev_button (debouncer_run 2 3 [True, True, False] debouncer_init)
        else button_o (debouncer_run 2 3 [True, True, False] debouncer_init))"
proof -
  have h: "debouncer_new 2 = Inr debouncer_init" "(3::nat) < 2 ^ 2"
    by (simp_all add: debouncer_new_eq)
  from h debounce_state_invariant [OF h, of "[True, True, False]" True] show ?thesis
    by blast
qed

text \<open>
  The output need not equal the stored previous input in a state whose counter is 0: with
  window 3 and the input at 1 for four edges the counter is 0, the stored input is 1 and
  the output is still 0.
\<close>

theorem debounce_state_invariant_counterexample:
  "debouncer_new 2 = Inr debouncer_init
   \<and> debounce_cnt (debouncer_run 2 3 [True, True, True, True] debouncer_init) = 0
   \<and> prev_button (debouncer_run 2 3 [True, True, True, True] debouncer_init) = True
   \<and> button_o (debouncer_run 2 3 [True, True, True, True] debouncer_init) = False"
  by code_simp

text \<open>
  C9 (amended). No debouncer with the window 0 is constructed: its counter would have
  \<open>ceil(log2(0 + 1))\<close> = 0 bits, and the construction of a bus of width 0 raises
  \<^verbatim>\<open>ValueError\<close>. A debouncer is constructed, in its initial state, exactly when the
  width of its counter is at least 1.
\<close>

theorem debounce_zero_window_not_constructed:
  "debouncer_new (clog2 (0 + 1)) = Inl ValueError
   \<and> debouncer_new w = (if w = 0 then Inl ValueError else Inr debouncer_init)"
  by (simp add: debouncer_new_eq clog2.simps)

text \<open>
  The claim has the debouncer of window 0 pass its input through; the code raises the
  exception when it constructs that debouncer, so there is no circuit to step.
\<close>

theorem debounce_zero_window_counterexample:
  "debouncer_new 0 = Inl ValueError"
  by (simp add: debouncer_new_eq)

section \<open>Properties of the state machine\<close>

text \<open>
  C1. With the lockout expired (\<^verbatim>\<open>reset_cnt\<close> at 3) the next state follows the table
  A: fwd B, bck D; B: fwd C, bck A; C: fwd D, bck B; D: fwd A, bck C, where fwd is bit 0 of
  \<^verbatim>\<open>input_chgs\<close> and bck is bit 1; bit 0 is tested first, and with neither bit set the
  state holds. From A, the edges fwd, fwd, bck give the states B, C, B and the output
  code 0010.
\<close>

theorem fsm_transition_table:
  "fsm_state (next_state_logic chgs d \<lparr>fsm_state = A, reset_cnt = 3, prev_inputs = p\<rparr>)
     = (if bit chgs 0 then B else if bit chgs 1 then D else A)
   \<and> fsm_state (next_state_logic chgs d \<lparr>fsm_state = B, reset_cnt = 3, prev_inputs = p\<rparr>)
     = (if bit chgs 0 then C else if bit chgs 1 then A else B)
   \<and> fsm_state (next_state_logic chgs d \<lparr>fsm_state = C, reset_cnt = 3, prev_inputs = p\<rparr>)
     = (if bit chgs 0 then D else if bit chgs 1 then B else C)
   \<and> fsm_state (next_state_logic chgs d \<lparr>fsm_state = D, reset_cnt = 3, prev_inputs = p\<rparr>)
     = (if bit chgs 0 then A else if bit chgs 1 then C else D)
   \<and> fsm_state (next_state_logic 0b01 d1 \<lparr>fsm_state = A, reset_cnt = 3, prev_inputs = p\<rparr>) = B
   \<and> fsm_state (next_state_logic 0b01 d2
        (next_state_logic 0b01 d1 \<lparr>fsm_state = A, reset_cnt = 3, prev_inputs = p\<rparr>)) = C
   \<and> fsm_state (next_state_logic 0b10 d3 (next_state_logic 0b01 d2
        (next_state_logic 0b01 d1 \<lparr>fsm_state = A, reset_cnt = 3, prev_inputs = p\<rparr>))) = B
   \<and> output_logic (fsm_state (next_state_logic 0b10 d3 (next_state_logic 0b01 d2
        (next_state_logic 0b01 d1 \<lparr>fsm_state = A, reset_cnt = 3, prev_inputs = p\<rparr>)))) = 0b0010"
  by (simp add: next_state_logic_def reset_cnt_max_def output_logic_def)

text \<open>
  The same walk driven by the debounced inputs: bit 0 rises, falls and rises again, then
  bit 1 rises.
\<close>

lemma fsm_walk_example:
  "map fsm_state
     [fsm_regs_step 0b01 \<lparr>fsm_state = A, reset_cnt = 3, prev_inputs = 0\<rparr>,
      fsm_regs_step 0b00 (fsm_regs_step 0b01 \<lparr>fsm_state = A, reset_cnt = 3, prev_inputs = 0\<rparr>),
      fsm_regs_step 0b01 (fsm_regs_step 0b00 (fsm_regs_step 0b01
        \<lparr>fsm_state = A, reset_cnt = 3, prev_inputs = 0\<rparr>)),
      fsm_regs_step 0b10 (fsm_regs_step 0b01 (fsm_regs_step 0b00 (fsm_regs_step 0b01
        \<lparr>fsm_state = A, reset_cnt = 3, prev_inputs = 0\<rparr>)))]
   = [B, B, C, B]"
  by code_simp

text \<open>
  C5. From the state after construction, and from any state with \<^verbatim>\<open>reset_cnt\<close> at 0 and the
  state register at A (whatever the debouncers and \<^verbatim>\<open>prev_inputs\<close> hold, so whatever
  edges are detected), for every trace of raw inputs of length at most
  \<^verbatim>\<open>reset_cnt.max - 1\<close> (three edges) the state after the trace is A and \<^verbatim>\<open>reset_cnt\<close>
  equals the number of edges.
\<close>

theorem fsm_startup_lockout:
  assumes "reset_cnt (regs s) = 0" and "fsm_state (regs s) = A"
    and "length xs \<le> reset_cnt_max - 1"
  shows "fsm_state (regs (classic_fsm_run xs s)) = A
       \<and> unat (reset_cnt (regs (classic_fsm_run xs s))) = length xs"
  using assms lockout_run [of s xs] by simp

theorem fsm_startup_lockout_witness:
  "reset_cnt (regs classic_fsm_init) = 0 \<and> fsm_state (regs classic_fsm_init) = A
   \<and> length [3, 1, 2 :: 2 word] \<le> reset_cnt_max - 1
   \<and> fsm_state (regs (classic_fsm_run [3, 1, 2] classic_fsm_init)) = A
   \<and> unat (reset_cnt (regs (classic_fsm_run [3, 1, 2] classic_fsm_init))) = 3"
proof -
  have h: "reset_cnt (regs classic_fsm_init) = 0" "fsm_state (regs classic_fsm_init) = A"
    "length [3, 1, 2 :: 2 word] \<le> reset_cnt_max - 1"
    by (simp_all add: classic_fsm_init_def fsm_regs_init_def reset_cnt_max_def)
  from h fsm_startup_lockout [OF h] show ?thesis by simp
qed

text \<open>
  C10. On every edge \<^verbatim>\<open>reset_cnt\<close> does not decrease; it never exceeds
  \<^verbatim>\<open>reset_cnt.max - 1\<close>; and once it is 3 it is 3 after every further trace, so the test
  \<^verbatim>\<open>reset_cnt < reset_cnt.max - 1\<close> of the lockout branch is false from then on.
\<close>

theorem fsm_lockout_one_shot:
  "reset_cnt (regs s) \<le> reset_cnt (regs (classic_fsm_step x s))
   \<and> unat (reset_cnt (regs s)) \<le> reset_cnt_max - 1
   \<and> (reset_cnt (regs s) = 3 \<longrightarrow>
        (\<forall>xs. reset_cnt (regs (classic_fsm_run xs s)) = 3
          \<and> \<not> unat (reset_cnt (regs (classic_fsm_run xs s))) < reset_cnt_max - 1))"
proof -
  have a: "reset_cnt (regs s) \<le> reset_cnt (regs (classic_fsm_step x s))"
    by (simp add: regs_classic_fsm_step reset_cnt_mono)
  have "unat (reset_cnt (regs s)) < 2 ^ LENGTH(2)" by (rule unsigned_less)
  then have b: "unat (reset_cnt (regs s)) \<le> reset_cnt_max - 1"
    by (simp add: reset_cnt_max_def)
  from a b show ?thesis by (simp add: expired_run reset_cnt_max_def)
qed

theorem fsm_lockout_one_shot_witness:
  "reset_cnt (regs (classic_fsm_run [0, 0, 0] classic_fsm_init)) = 3
   \<and> reset_cnt (regs (classic_fsm_run [1, 2] (classic_fsm_run [0, 0, 0] classic_fsm_init))) = 3
   \<and> \<not> unat (reset_cnt (regs (classic_fsm_run [1, 2]
         (classic_fsm_run [0, 0, 0] classic_fsm_init)))) < reset_cnt_max - 1"
proof -
  have "unat (reset_cnt (regs (classic_fsm_run [0, 0, 0] classic_fsm_init))) = unat (3 :: 2 word)"
    using lockout_run [of classic_fsm_init "[0, 0, 0]"]
    by (simp add: classic_fsm_init_def fsm_regs_init_def reset_cnt_max_def)
  then have h: "reset_cnt (regs (classic_fsm_run [0, 0, 0] classic_fsm_init)) = 3"
    by (simp only: word_unat_eq_iff)
  from h fsm_lockout_one_shot [of "classic_fsm_run [0, 0, 0] classic_fsm_init" 0]
  show ?thesis by blast
qed

text \<open>
  C7. In every state of the circuit reachable from the initial one, the state register
  holds one of A, B, C, D, and the output bus, a function of the state register alone, has
  exactly one bit set: A 0001, B 0010, C 0100, D 1000.
\<close>

theorem fsm_one_hot:
  "fsm_state (regs (classic_fsm_run xs classic_fsm_init)) \<in> {A, B, C, D}
   \<and> bits_set (output_logic (fsm_state (regs (classic_fsm_run xs classic_fsm_init)))) = 1
   \<and> output_logic A = 0b0001 \<and> output_logic B = 0b0010
   \<and> output_logic C = 0b0100 \<and> output_logic D = 0b1000"
proof -
  have "fsm_state (regs (classic_fsm_run xs classic_fsm_init)) \<in> {A, B, C, D}"
    by (cases "fsm_state (regs (classic_fsm_run xs classic_fsm_init))") simp_all
  with output_logic_one_hot show ?thesis by (simp add: output_logic_def)
qed



end
